theory Spec2Isabelle
  imports Complex_Main "HOL-Library.Word"
begin

text \<open>
  The worker of the multiplayer game: its handlers for players, chat, cleanup and logout
  over the shared key-value store, as functions from a request and the store to a
  response and the store after it. Everything the worker reads from its environment
  (the caller's identity, the parsed body, the clock, the random source, whether a store
  access throws) is an explicit input.
\<close>

section \<open>JavaScript values\<close>

text \<open>
  A JavaScript string is a sequence of UTF-16 code units; \<open>length\<close>, \<open>trim\<close> and
  \<open>substring\<close> all count code units. Identities, display names and ISO timestamps are
  never inspected by the worker and are kept as opaque strings.
\<close>

type_synonym jstring = "16 word list"

text \<open>
  The values a parsed JSON request body can hold in one property. \<open>JUndefined\<close> is a
  missing property, \<open>JOther\<close> an object or an array. Numbers are the finite ones, held
  exactly.
\<close>

datatype json = JUndefined | JNull | JBool bool | JNum real | JStr jstring | JOther

datatype js_type = TUndefined | TObject | TBoolean | TNumber | TString

fun typeof :: "json \<Rightarrow> js_type" where
  "typeof JUndefined = TUndefined"
| "typeof JNull = TObject"
| "typeof (JBool b) = TBoolean"
| "typeof (JNum r) = TNumber"
| "typeof (JStr s) = TString"
| "typeof JOther = TObject"

text \<open>\<open>truthy v\<close> is the value of \<open>!!v\<close>.\<close>

fun truthy :: "json \<Rightarrow> bool" where
  "truthy JUndefined = False"
| "truthy JNull = False"
| "truthy (JBool b) = b"
| "truthy (JNum r) = (r \<noteq> 0)"
| "truthy (JStr s) = (s \<noteq> [])"
| "truthy JOther = True"

text \<open>\<open>Math.round\<close>: the nearest integer, a tie going towards plus infinity.\<close>

definition Math_round :: "real \<Rightarrow> int" where
  "Math_round r = \<lfloor>r + 1 / 2\<rfloor>"

text \<open>
  The code units that \<open>String.prototype.trim\<close> strips: the WhiteSpace and
  LineTerminator productions of ECMAScript.
\<close>

definition is_whitespace :: "16 word \<Rightarrow> bool" where
  "is_whitespace c =
     (c = 0x0009 \<or> c = 0x000A \<or> c = 0x000B \<or> c = 0x000C \<or> c = 0x000D \<or> c = 0x0020
      \<or> c = 0x00A0 \<or> c = 0x1680 \<or> (0x2000 \<le> c \<and> c \<le> 0x200A) \<or> c = 0x2028
      \<or> c = 0x2029 \<or> c = 0x202F \<or> c = 0x205F \<or> c = 0x3000 \<or> c = 0xFEFF)"

definition trim :: "jstring \<Rightarrow> jstring" where
  "trim s = rev (dropWhile is_whitespace (rev (dropWhile is_whitespace s)))"

text \<open>\<open>s.substring(0, n)\<close>.\<close>

definition substring0 :: "nat \<Rightarrow> jstring \<Rightarrow> jstring" where
  "substring0 n s = take n s"

text \<open>\<open>xs.slice(-n)\<close> for \<open>n > 0\<close>: the last \<open>n\<close> elements, all of them when there are fewer.\<close>

definition slice_last :: "nat \<Rightarrow> 'a list \<Rightarrow> 'a list" where
  "slice_last n xs = drop (length xs - n) xs"

section \<open>Configuration\<close>

definition MAX_CHAT_HISTORY :: nat where
  "MAX_CHAT_HISTORY = 100"

definition MAX_CHAT_DISPLAY :: nat where
  "MAX_CHAT_DISPLAY = 50"

definition PLAYER_TIMEOUT :: int where
  "PLAYER_TIMEOUT = 30000"

text \<open>The grid size is a constant of the browser client (game.js); the worker has none.\<close>

definition GRID_SIZE :: int where
  "GRID_SIZE = 500"

section \<open>Data model\<close>

record player =
  p_id :: string
  p_username :: string
  p_emoji :: json
  p_x :: int
  p_y :: int
  p_lastUpdate :: int

record chat_message =
  m_id :: real
  m_username :: string
  m_message :: jstring
  m_timestamp :: string
  m_userId :: string

record game_stats =
  activePlayers :: nat
  totalMessages :: nat
  lastUpdate :: int

text \<open>
  A JavaScript \<open>Map\<close> keeps its entries in insertion order with one entry per key. It is
  an association list here; \<open>Map_set\<close> replaces the value of a present key in place and
  appends an absent one, \<open>Map_delete\<close> returns whether the key was present.
\<close>

type_synonym players_map = "(string \<times> player) list"

fun Map_set :: "'k \<Rightarrow> 'v \<Rightarrow> ('k \<times> 'v) list \<Rightarrow> ('k \<times> 'v) list" where
  "Map_set k v [] = [(k, v)]"
| "Map_set k v ((k', v') # m) = (if k = k' then (k, v) # m else (k', v') # Map_set k v m)"

definition Map_has :: "'k \<Rightarrow> ('k \<times> 'v) list \<Rightarrow> bool" where
  "Map_has k m = (k \<in> set (map fst m))"

definition Map_delete :: "'k \<Rightarrow> ('k \<times> 'v) list \<Rightarrow> bool \<times> ('k \<times> 'v) list" where
  "Map_delete k m = (Map_has k m, filter (\<lambda>e. fst e \<noteq> k) m)"

text \<open>\<open>new Map(Object.entries(obj))\<close>: every entry is set in turn on an empty map.\<close>

definition new_Map :: "('k \<times> 'v) list \<Rightarrow> ('k \<times> 'v) list" where
  "new_Map entries = foldl (\<lambda>m e. Map_set (fst e) (snd e) m) [] entries"

text \<open>\<open>Array.from(m.values())\<close> and \<open>m.size\<close>.\<close>

definition Map_values :: "('k \<times> 'v) list \<Rightarrow> 'v list" where
  "Map_values m = map snd m"

definition Map_size :: "('k \<times> 'v) list \<Rightarrow> nat" where
  "Map_size m = length m"

section \<open>The key-value store\<close>

text \<open>
  The store of the application's owner (\<open>me.puter.kv\<close>) holds one value under each of
  three keys; a key never written reads as \<open>null\<close> (\<open>None\<close>). A \<open>get\<close> or a \<open>set\<close>
  may throw: \<open>fails n\<close> tells whether the access number \<open>n\<close> (counted from 0) does.
  Every access is recorded in \<open>accesses\<close>, whether it throws or not.
\<close>

datatype kv_key = KV_PLAYERS_KEY | KV_CHAT_KEY | KV_STATS_KEY

datatype kv_access = KvGet kv_key | KvSet kv_key

datatype exn = Thrown

record kv =
  players_data :: "players_map option"
  chat_data :: "chat_message list option"
  stats_data :: "game_stats option"
  fails :: "nat \<Rightarrow> bool"
  accesses :: "kv_access list"

definition access :: "kv_access \<Rightarrow> kv \<Rightarrow> bool \<times> kv" where
  "access a s = (fails s (length (accesses s)), s\<lparr>accesses := accesses s @ [a]\<rparr>)"

definition kv_get_players :: "kv \<Rightarrow> (exn + players_map option) \<times> kv" where
  "kv_get_players s =
     (case access (KvGet KV_PLAYERS_KEY) s of
        (True, s') \<Rightarrow> (Inl Thrown, s')
      | (False, s') \<Rightarrow> (Inr (players_data s'), s'))"

definition kv_set_players :: "players_map \<Rightarrow> kv \<Rightarrow> (exn + unit) \<times> kv" where
  "kv_set_players v s =
     (case access (KvSet KV_PLAYERS_KEY) s of
        (True, s') \<Rightarrow> (Inl Thrown, s')
      | (False, s') \<Rightarrow> (Inr (), s'\<lparr>players_data := Some v\<rparr>))"

definition kv_get_chat :: "kv \<Rightarrow> (exn + chat_message list option) \<times> kv" where
  "kv_get_chat s =
     (case access (KvGet KV_CHAT_KEY) s of
        (True, s') \<Rightarrow> (Inl Thrown, s')
      | (False, s') \<Rightarrow> (Inr (chat_data s'), s'))"

definition kv_set_chat :: "chat_message list \<Rightarrow> kv \<Rightarrow> (exn + unit) \<times> kv" where
  "kv_set_chat v s =
     (case access (KvSet KV_CHAT_KEY) s of
        (True, s') \<Rightarrow> (Inl Thrown, s')
      | (False, s') \<Rightarrow> (Inr (), s'\<lparr>chat_data := Some v\<rparr>))"

definition kv_set_stats :: "game_stats \<Rightarrow> kv \<Rightarrow> (exn + unit) \<times> kv" where
  "kv_set_stats v s =
     (case access (KvSet KV_STATS_KEY) s of
        (True, s') \<Rightarrow> (Inl Thrown, s')
      | (False, s') \<Rightarrow> (Inr (), s'\<lparr>stats_data := Some v\<rparr>))"

text \<open>A store none of whose accesses throws.\<close>

definition reliable :: "kv \<Rightarrow> bool" where
  "reliable s = (\<forall>n. \<not> fails s n)"

section \<open>Helper functions for KV operations\<close>

text \<open>
  Each helper wraps its store access in \<open>try\<close>/\<open>catch\<close>, logs the error and goes on:
  a failed read gives the empty collection, a failed write changes nothing and is not
  reported to the caller of the helper. The players are stored as one object;
  \<open>Object.entries\<close> and \<open>Object.fromEntries\<close> keep the entries and their order
  (identities are UUIDs, never array indices), so the object is the entry list itself.
\<close>

definition getPlayers :: "kv \<Rightarrow> players_map \<times> kv" where
  "getPlayers s =
     (case kv_get_players s of
        (Inr playersData, s') \<Rightarrow>
          (case playersData of Some obj \<Rightarrow> (new_Map obj, s') | None \<Rightarrow> (new_Map [], s'))
      | (Inl error, s') \<Rightarrow> (new_Map [], s'))"

definition savePlayers :: "players_map \<Rightarrow> kv \<Rightarrow> kv" where
  "savePlayers players s =
     (case kv_set_players players s of
        (Inr u, s') \<Rightarrow> s'
      | (Inl error, s') \<Rightarrow> s')"

definition getChatHistory :: "kv \<Rightarrow> chat_message list \<times> kv" where
  "getChatHistory s =
     (case kv_get_chat s of
        (Inr chatData, s') \<Rightarrow>
          (case chatData of Some h \<Rightarrow> (h, s') | None \<Rightarrow> ([], s'))
      | (Inl error, s') \<Rightarrow> ([], s'))"

definition saveChatHistory :: "chat_message list \<Rightarrow> kv \<Rightarrow> kv" where
  "saveChatHistory chatHistory s =
     (case kv_set_chat chatHistory s of
        (Inr u, s') \<Rightarrow> s'
      | (Inl error, s') \<Rightarrow> s')"

text \<open>\<open>now\<close> is what \<open>Date.now()\<close> returns inside the function.\<close>

definition updateGameStats :: "int \<Rightarrow> kv \<Rightarrow> game_stats \<times> kv" where
  "updateGameStats now s =
     (case getPlayers s of (players, s1) \<Rightarrow>
      case getChatHistory s1 of (chatHistory, s2) \<Rightarrow>
        (let stats = \<lparr>activePlayers = Map_size players,
                      totalMessages = length chatHistory,
                      lastUpdate = now\<rparr>
         in case kv_set_stats stats s2 of
              (Inr u, s3) \<Rightarrow> (stats, s3)
            | (Inl error, s3) \<Rightarrow>
                (\<lparr>activePlayers = 0, totalMessages = 0, lastUpdate = now\<rparr>, s3)))"

section \<open>Requests and responses\<close>

record user_info =
  uuid :: string
  username :: string

text \<open>
  The \<open>user\<close> the router hands to a handler: absent (\<open>None\<close>), present without a
  \<open>puter\<close> object, or present with one, whose \<open>auth.getUser()\<close> throws or returns.
\<close>

datatype get_user = GetUserThrows | GetUserReturns user_info

datatype user = UserWithoutPuter | UserWithPuter get_user

datatype response =
    PlayersList "player list" nat int
  | PositionUpdated string int int nat
  | ChatMessages "chat_message list" nat int
  | ChatSent chat_message nat
  | CleanedUp nat nat int
  | LoggedOut bool string nat
  | HttpError nat string

definition status :: "response \<Rightarrow> nat" where
  "status r = (case r of HttpError code msg \<Rightarrow> code | _ \<Rightarrow> 200)"

section \<open>Read handlers\<close>

text \<open>
  \<open>GET /api/players\<close> and \<open>GET /api/chat\<close>. Their \<open>catch\<close> branches are unreachable,
  since the helpers never throw. \<open>now\<close> is the \<open>Date.now()\<close> of the response.
\<close>

definition get_players_handler :: "int \<Rightarrow> kv \<Rightarrow> response \<times> kv" where
  "get_players_handler now s =
     (case getPlayers s of (players, s') \<Rightarrow>
        (let playerList = Map_values players
         in (PlayersList playerList (length playerList) now, s')))"

definition get_chat_handler :: "int \<Rightarrow> kv \<Rightarrow> response \<times> kv" where
  "get_chat_handler now s =
     (case getChatHistory s of (chatHistory, s') \<Rightarrow>
        (ChatMessages (slice_last MAX_CHAT_DISPLAY chatHistory) (length chatHistory) now, s'))"

section \<open>Write handlers\<close>

record position_request =
  pos_user :: "user option"
  pos_body :: "(json \<times> json \<times> json) option"
  pos_now :: int

text \<open>
  \<open>pos_body\<close> is the \<open>{ x, y, emoji }\<close> taken from \<open>await request.json()\<close>, \<open>None\<close>
  when that throws; \<open>pos_now\<close> is the \<open>Date.now()\<close> of the new entry.
\<close>

fun num_of :: "json \<Rightarrow> real" where
  "num_of (JNum r) = r"
| "num_of v = 0"

fun str_of :: "json \<Rightarrow> jstring" where
  "str_of (JStr s) = s"
| "str_of v = []"

text \<open>\<open>POST /api/player/position\<close>.\<close>

definition position_handler :: "position_request \<Rightarrow> kv \<Rightarrow> response \<times> kv" where
  "position_handler req s =
     (case pos_user req of
        None \<Rightarrow> (HttpError 401 ''Authentication required'', s)
      | Some UserWithoutPuter \<Rightarrow> (HttpError 401 ''Authentication required'', s)
      | Some (UserWithPuter getUser) \<Rightarrow>
          (case pos_body req of
             None \<Rightarrow> (HttpError 500 ''Server error'', s)
           | Some (x, y, emoji) \<Rightarrow>
               (case getUser of
                  GetUserThrows \<Rightarrow> (HttpError 500 ''Server error'', s)
                | GetUserReturns userInfo \<Rightarrow>
                    if typeof x \<noteq> TNumber \<or> typeof y \<noteq> TNumber \<or> \<not> truthy emoji
                    then (HttpError 400 ''Invalid position data'', s)
                    else
                      (case getPlayers s of (players, s1) \<Rightarrow>
                         (let players' =
                                Map_set (uuid userInfo)
                                  \<lparr>p_id = uuid userInfo,
                                   p_username = username userInfo,
                                   p_emoji = emoji,
                                   p_x = Math_round (num_of x),
                                   p_y = Math_round (num_of y),
                                   p_lastUpdate = pos_now req\<rparr> players;
                              s2 = savePlayers players' s1
                          in (PositionUpdated (uuid userInfo) (Math_round (num_of x))
                                (Math_round (num_of y)) (Map_size players'), s2))))))"

record chat_request =
  chat_user :: "user option"
  chat_body :: "json option"
  chat_now :: int
  chat_random :: real
  chat_iso :: string

text \<open>
  \<open>chat_body\<close> is the \<open>{ message }\<close> taken from \<open>await request.json()\<close>, \<open>None\<close> when
  that throws; \<open>chat_now\<close>, \<open>chat_random\<close> and \<open>chat_iso\<close> are what \<open>Date.now()\<close>,
  \<open>Math.random()\<close> and \<open>new Date().toISOString()\<close> return while the message is built.
\<close>

text \<open>\<open>chatHistory.push(m)\<close>, then one \<open>shift()\<close> when the length is over the cap.\<close>

definition push_capped :: "chat_message list \<Rightarrow> chat_message \<Rightarrow> chat_message list" where
  "push_capped chatHistory m =
     (let h = chatHistory @ [m]
      in if length h > MAX_CHAT_HISTORY then tl h else h)"

text \<open>
  The id is \<open>Date.now() + Math.random()\<close>. The sum is exact here; the code adds
  doubles, whose rounding can only make more ids equal.
\<close>

definition new_message :: "chat_request \<Rightarrow> user_info \<Rightarrow> jstring \<Rightarrow> chat_message" where
  "new_message req userInfo sanitizedMessage =
     \<lparr>m_id = real_of_int (chat_now req) + chat_random req,
      m_username = username userInfo,
      m_message = sanitizedMessage,
      m_timestamp = chat_iso req,
      m_userId = uuid userInfo\<rparr>"

text \<open>\<open>POST /api/chat\<close>.\<close>

definition chat_handler :: "chat_request \<Rightarrow> kv \<Rightarrow> response \<times> kv" where
  "chat_handler req s =
     (case chat_user req of
        None \<Rightarrow> (HttpError 401 ''Authentication required'', s)
      | Some UserWithoutPuter \<Rightarrow> (HttpError 401 ''Authentication required'', s)
      | Some (UserWithPuter getUser) \<Rightarrow>
          (case chat_body req of
             None \<Rightarrow> (HttpError 500 ''Server error'', s)
           | Some message \<Rightarrow>
               (case getUser of
                  GetUserThrows \<Rightarrow> (HttpError 500 ''Server error'', s)
                | GetUserReturns userInfo \<Rightarrow>
                    if \<not> truthy message \<or> typeof message \<noteq> TString
                       \<or> length (trim (str_of message)) = 0
                    then (HttpError 400 ''Invalid message'', s)
                    else
                      (let sanitizedMessage = substring0 200 (trim (str_of message));
                           chatMessage = new_message req userInfo sanitizedMessage
                       in case getChatHistory s of (chatHistory, s1) \<Rightarrow>
                            (let chatHistory' = push_capped chatHistory chatMessage;
                                 s2 = saveChatHistory chatHistory' s1
                             in (ChatSent chatMessage (length chatHistory'), s2))))))"

text \<open>
  The loop of \<open>POST /api/cleanup\<close> over \<open>players.entries()\<close>, with the map and the
  counter it updates. Deleting the entry being visited leaves the rest of the iteration
  as it was, so the loop runs over the entries the map had at the start. \<open>timeout\<close>
  stands for the constant the loop compares with; the handler passes \<open>PLAYER_TIMEOUT\<close>.
\<close>

fun cleanup_loop ::
  "int \<Rightarrow> int \<Rightarrow> players_map \<Rightarrow> players_map \<times> nat \<Rightarrow> players_map \<times> nat" where
  "cleanup_loop now timeout [] (players, removedCount) = (players, removedCount)"
| "cleanup_loop now timeout ((ident, player) # rest) (players, removedCount) =
     (if now - p_lastUpdate player > timeout
      then cleanup_loop now timeout rest (snd (Map_delete ident players), removedCount + 1)
      else cleanup_loop now timeout rest (players, removedCount))"

definition sweep :: "int \<Rightarrow> int \<Rightarrow> players_map \<Rightarrow> players_map \<times> nat" where
  "sweep now timeout players = cleanup_loop now timeout players (players, 0)"

text \<open>
  \<open>POST /api/cleanup\<close>; \<open>now\<close> is the \<open>Date.now()\<close> read at the start, \<open>stats_now\<close>
  the one read by \<open>updateGameStats\<close>.
\<close>

definition cleanup_handler :: "int \<Rightarrow> int \<Rightarrow> kv \<Rightarrow> response \<times> kv" where
  "cleanup_handler now stats_now s =
     (case getPlayers s of (players, s1) \<Rightarrow>
      case sweep now PLAYER_TIMEOUT players of (players', removedCount) \<Rightarrow>
        (let s2 = savePlayers players' s1;
             s3 = snd (updateGameStats stats_now s2)
         in (CleanedUp removedCount (Map_size players') now, s3)))"

text \<open>\<open>POST /api/player/logout\<close>.\<close>

definition logout_handler :: "user option \<Rightarrow> int \<Rightarrow> kv \<Rightarrow> response \<times> kv" where
  "logout_handler usr stats_now s =
     (case usr of
        None \<Rightarrow> (HttpError 401 ''Authentication required'', s)
      | Some UserWithoutPuter \<Rightarrow> (HttpError 401 ''Authentication required'', s)
      | Some (UserWithPuter getUser) \<Rightarrow>
          (case getUser of
             GetUserThrows \<Rightarrow> (HttpError 500 ''Server error'', s)
           | GetUserReturns userInfo \<Rightarrow>
               (case getPlayers s of (players, s1) \<Rightarrow>
                case Map_delete (uuid userInfo) players of (removed, players') \<Rightarrow>
                  (let s2 = savePlayers players' s1;
                       s3 = snd (updateGameStats stats_now s2)
                   in (LoggedOut removed (uuid userInfo) (Map_size players'), s3)))))"

section \<open>Observing the store and running requests\<close>

text \<open>The collections as persisted: an unwritten key holds nothing.\<close>

definition persisted_players :: "kv \<Rightarrow> players_map" where
  "persisted_players s = (case players_data s of None \<Rightarrow> [] | Some obj \<Rightarrow> obj)"

definition persisted_chat :: "kv \<Rightarrow> chat_message list" where
  "persisted_chat s = (case chat_data s of None \<Rightarrow> [] | Some h \<Rightarrow> h)"

text \<open>The test of the cleanup loop on one entry, for a given \<open>now\<close> and timeout.\<close>

definition stale :: "int \<Rightarrow> int \<Rightarrow> string \<times> player \<Rightarrow> bool" where
  "stale now timeout e = (now - p_lastUpdate (snd e) > timeout)"

text \<open>The \<open>playerRemoved\<close> field of a logout response.\<close>

definition playerRemoved :: "response \<Rightarrow> bool option" where
  "playerRemoved r =
     (case r of LoggedOut removed ident remaining \<Rightarrow> Some removed | _ \<Rightarrow> None)"

text \<open>
  A chat request that passes authentication and validation: the identity lookup returns
  and the message is a string that is not blank.
\<close>

definition valid_chat :: "chat_request \<Rightarrow> bool" where
  "valid_chat req =
     (case (chat_user req, chat_body req) of
        (Some (UserWithPuter (GetUserReturns userInfo)), Some (JStr raw)) \<Rightarrow> trim raw \<noteq> []
      | _ \<Rightarrow> False)"

text \<open>Chat requests handled one after the other, and the messages their answers carry.\<close>

fun run_chat :: "chat_request list \<Rightarrow> kv \<Rightarrow> response list \<times> kv" where
  "run_chat [] s = ([], s)"
| "run_chat (req # reqs) s =
     (case chat_handler req s of (resp, s1) \<Rightarrow>
      case run_chat reqs s1 of (resps, s2) \<Rightarrow> (resp # resps, s2))"

fun sent_messages :: "response list \<Rightarrow> chat_message list" where
  "sent_messages [] = []"
| "sent_messages (ChatSent m n # resps) = m # sent_messages resps"
| "sent_messages (resp # resps) = sent_messages resps"

section \<open>Example inputs\<close>

definition fresh_kv :: kv where
  "fresh_kv = \<lparr>players_data = None, chat_data = None, stats_data = None,
               fails = (\<lambda>n. False), accesses = []\<rparr>"

definition broken_kv :: kv where
  "broken_kv = \<lparr>players_data = None, chat_data = None, stats_data = None,
                fails = (\<lambda>n. True), accesses = []\<rparr>"

definition alice :: user_info where
  "alice = \<lparr>uuid = ''u-alice'', username = ''alice''\<rparr>"

definition bob :: user_info where
  "bob = \<lparr>uuid = ''u-bob'', username = ''bob''\<rparr>"

definition write_failing_kv :: kv where
  "write_failing_kv = \<lparr>players_data = None, chat_data = None, stats_data = None,
                       fails = (\<lambda>n. n = 1), accesses = []\<rparr>"

definition pos_far :: position_request where
  "pos_far = \<lparr>pos_user = Some (UserWithPuter (GetUserReturns alice)),
              pos_body = Some (JNum 1000, JNum (- 7 / 2), JStr [0x263A]),
              pos_now = 1700000000000\<rparr>"

definition chat_hi :: chat_request where
  "chat_hi = \<lparr>chat_user = Some (UserWithPuter (GetUserReturns alice)),
              chat_body = Some (JStr [0x20, 0x68, 0x69, 0x20]),
              chat_now = 1700000000000, chat_random = 1 / 2,
              chat_iso = ''2023-11-14T22:13:20.000Z''\<rparr>"

definition chat_blank :: chat_request where
  "chat_blank = chat_hi\<lparr>chat_body := Some (JStr [0x20, 0x09])\<rparr>"

definition chat_long :: chat_request where
  "chat_long = chat_hi\<lparr>chat_body := Some (JStr (replicate 500 0x78))\<rparr>"

definition chat_yo :: chat_request where
  "chat_yo = \<lparr>chat_user = Some (UserWithPuter (GetUserReturns bob)),
              chat_body = Some (JStr [0x79, 0x6F]),
              chat_now = 1700000000000, chat_random = 1 / 2,
              chat_iso = ''2023-11-14T22:13:20.000Z''\<rparr>"

definition chat_burst :: "chat_request list" where
  "chat_burst = map (\<lambda>i. chat_hi\<lparr>chat_now := 1700000000000 + int i\<rparr>) [0..<101]"

definition carol_stale :: player where
  "carol_stale = \<lparr>p_id = ''u-carol'', p_username = ''carol'', p_emoji = JStr [0x263A],
                  p_x = 10, p_y = 20, p_lastUpdate = 69999\<rparr>"

definition alice_edge :: player where
  "alice_edge = \<lparr>p_id = ''u-alice'', p_username = ''alice'', p_emoji = JStr [0x263A],
                 p_x = 30, p_y = 40, p_lastUpdate = 70000\<rparr>"

definition bob_fresh :: player where
  "bob_fresh = \<lparr>p_id = ''u-bob'', p_username = ''bob'', p_emoji = JStr [0x263A],
                p_x = 50, p_y = 60, p_lastUpdate = 99000\<rparr>"

definition three_players :: players_map where
  "three_players = [(''u-carol'', carol_stale), (''u-alice'', alice_edge), (''u-bob'', bob_fresh)]"

definition busy_kv :: kv where
  "busy_kv = \<lparr>players_data = Some three_players, chat_data = None, stats_data = None,
              fails = (\<lambda>n. False), accesses = []\<rparr>"

section \<open>The helpers, equationally\<close>

lemma new_Map_Nil: "new_Map [] = []"
  by (simp add: new_Map_def)

lemma getPlayers_eq:
  "getPlayers s =
     (if fails s (length (accesses s)) then []
      else (case players_data s of None \<Rightarrow> [] | Some obj \<Rightarrow> new_Map obj),
      s\<lparr>accesses := accesses s @ [KvGet KV_PLAYERS_KEY]\<rparr>)"
  by (simp add: getPlayers_def kv_get_players_def access_def new_Map_Nil split: option.splits)

lemma savePlayers_eq:
  "savePlayers v s =
     (if fails s (length (accesses s))
      then s\<lparr>accesses := accesses s @ [KvSet KV_PLAYERS_KEY]\<rparr>
      else s\<lparr>accesses := accesses s @ [KvSet KV_PLAYERS_KEY], players_data := Some v\<rparr>)"
  by (simp add: savePlayers_def kv_set_players_def access_def)

lemma getChatHistory_eq:
  "getChatHistory s =
     (if fails s (length (accesses s)) then []
      else (case chat_data s of None \<Rightarrow> [] | Some h \<Rightarrow> h),
      s\<lparr>accesses := accesses s @ [KvGet KV_CHAT_KEY]\<rparr>)"
  by (simp add: getChatHistory_def kv_get_chat_def access_def split: option.splits)

lemma saveChatHistory_eq:
  "saveChatHistory v s =
     (if fails s (length (accesses s))
      then s\<lparr>accesses := accesses s @ [KvSet KV_CHAT_KEY]\<rparr>
      else s\<lparr>accesses := accesses s @ [KvSet KV_CHAT_KEY], chat_data := Some v\<rparr>)"
  by (simp add: saveChatHistory_def kv_set_chat_def access_def)

text \<open>What the two write handlers do with a request that passes every check.\<close>

lemma position_handler_valid:
  assumes "pos_user req = Some (UserWithPuter (GetUserReturns userInfo))"
    and "pos_body req = Some (JNum x, JNum y, emoji)" and "truthy emoji"
  shows "position_handler req s =
    (PositionUpdated (uuid userInfo) (Math_round x) (Math_round y)
       (Map_size (Map_set (uuid userInfo)
          \<lparr>p_id = uuid userInfo, p_username = username userInfo, p_emoji = emoji,
           p_x = Math_round x, p_y = Math_round y, p_lastUpdate = pos_now req\<rparr>
          (fst (getPlayers s)))),
     savePlayers (Map_set (uuid userInfo)
          \<lparr>p_id = uuid userInfo, p_username = username userInfo, p_emoji = emoji,
           p_x = Math_round x, p_y = Math_round y, p_lastUpdate = pos_now req\<rparr>
          (fst (getPlayers s))) (snd (getPlayers s)))"
  using assms by (simp add: position_handler_def Let_def split_beta)

lemma chat_handler_valid:
  assumes "chat_user req = Some (UserWithPuter (GetUserReturns userInfo))"
    and "chat_body req = Some (JStr raw)" and "trim raw \<noteq> []"
  shows "chat_handler req s =
    (ChatSent (new_message req userInfo (substring0 200 (trim raw)))
       (length (push_capped (fst (getChatHistory s))
          (new_message req userInfo (substring0 200 (trim raw))))),
     saveChatHistory (push_capped (fst (getChatHistory s))
          (new_message req userInfo (substring0 200 (trim raw)))) (snd (getChatHistory s)))"
proof -
  from assms(3) have "raw \<noteq> []" by (auto simp: trim_def)
  with assms show ?thesis by (simp add: chat_handler_def Let_def split_beta)
qed

lemma map_of_Map_set: "map_of (Map_set k v m) k = Some v"
  by (induction m) auto

lemma push_capped_snoc: "\<exists>h. push_capped xs m = h @ [m]"
  by (cases xs) (auto simp: push_capped_def Let_def MAX_CHAT_HISTORY_def)

section \<open>Maps built from entries\<close>

lemma keys_Map_set: "fst ` set (Map_set k v m) = insert k (fst ` set m)"
proof -
  have "set (map fst (Map_set k v m)) = insert k (set (map fst m))"
    by (induction m) force+
  then show ?thesis by simp
qed

lemma distinct_Map_set: "distinct (map fst m) \<Longrightarrow> distinct (map fst (Map_set k v m))"
  by (induction m) (auto simp: keys_Map_set)

lemma Map_set_fresh: "k \<notin> fst ` set m \<Longrightarrow> Map_set k v m = m @ [(k, v)]"
  by (induction m) auto

lemma foldl_Map_set_keys:
  "fst ` set (foldl (\<lambda>m e. Map_set (fst e) (snd e) m) m es) = fst ` set m \<union> fst ` set es"
  by (induction es arbitrary: m) (auto simp: keys_Map_set)

lemma foldl_Map_set_distinct:
  "distinct (map fst m) \<Longrightarrow> distinct (map fst (foldl (\<lambda>m e. Map_set (fst e) (snd e) m) m es))"
  by (induction es arbitrary: m) (auto simp: distinct_Map_set)

lemma foldl_Map_set_id:
  "distinct (map fst (m @ es)) \<Longrightarrow> foldl (\<lambda>m e. Map_set (fst e) (snd e) m) m es = m @ es"
proof (induction es arbitrary: m)
  case Nil
  then show ?case by simp
next
  case (Cons e es)
  from Cons.prems have "fst e \<notin> fst ` set m" by auto
  then have "Map_set (fst e) (snd e) m = m @ [e]" by (simp add: Map_set_fresh)
  moreover from Cons.prems have "distinct (map fst ((m @ [e]) @ es))" by auto
  ultimately show ?case using Cons.IH [of "m @ [e]"] by simp
qed

lemma keys_new_Map: "fst ` set (new_Map obj) = fst ` set obj"
  by (simp add: new_Map_def foldl_Map_set_keys)

lemma distinct_new_Map: "distinct (map fst (new_Map obj))"
  by (simp add: new_Map_def foldl_Map_set_distinct)

lemma new_Map_distinct_id: "distinct (map fst obj) \<Longrightarrow> new_Map obj = obj"
  using foldl_Map_set_id [of "[]" obj] by (simp add: new_Map_def)

lemma cleanup_loop_eq:
  "cleanup_loop now timeout es (m, c) =
     (filter (\<lambda>e. fst e \<notin> fst ` {e' \<in> set es. stale now timeout e'}) m,
      c + length (filter (stale now timeout) es))"
proof (induction es arbitrary: m c)
  case Nil
  then show ?case by simp
next
  case (Cons e es)
  obtain k p where e: "e = (k, p)" by (cases e)
  show ?case
  proof (cases "stale now timeout e")
    case True
    have "{e' \<in> set (e # es). stale now timeout e'} = insert e {e' \<in> set es. stale now timeout e'}"
      using True by auto
    then show ?thesis using True e Cons.IH
      by (auto simp: stale_def Map_delete_def intro!: filter_cong)
  next
    case False
    have "{e' \<in> set (e # es). stale now timeout e'} = {e' \<in> set es. stale now timeout e'}"
      using False by auto
    then show ?thesis using False e Cons.IH
      by (auto simp: stale_def)
  qed
qed

lemma sweep_eq:
  assumes "distinct (map fst players)"
  shows "sweep now timeout players =
     (filter (\<lambda>e. \<not> stale now timeout e) players, length (filter (stale now timeout) players))"
proof -
  have "(fst e \<notin> fst ` {e' \<in> set players. stale now timeout e'}) = (\<not> stale now timeout e)"
    if "e \<in> set players" for e
  proof -
    have uniq: "e' = e" if "e' \<in> set players" "fst e' = fst e" for e'
      using assms that \<open>e \<in> set players\<close>
      by (meson eq_key_imp_eq_value prod.expand distinct_map inj_onD)
    have "fst e \<in> fst ` {e' \<in> set players. stale now timeout e'} \<longleftrightarrow> stale now timeout e"
    proof
      assume "fst e \<in> fst ` {e' \<in> set players. stale now timeout e'}"
      then obtain e' where e': "e' \<in> set players" "stale now timeout e'" "fst e' = fst e"
        by auto
      from uniq [OF e'(1) e'(3)] e'(2) show "stale now timeout e" by simp
    next
      assume "stale now timeout e"
      with that show "fst e \<in> fst ` {e' \<in> set players. stale now timeout e'}" by force
    qed
    then show ?thesis by simp
  qed
  then have "filter (\<lambda>e. fst e \<notin> fst ` {e' \<in> set players. stale now timeout e'}) players =
     filter (\<lambda>e. \<not> stale now timeout e) players"
    by (intro filter_cong refl)
  then show ?thesis by (simp add: sweep_def cleanup_loop_eq)
qed


section \<open>Handlers on a store that does not fail\<close>

lemma updateGameStats_keeps:
  "players_data (snd (updateGameStats t s)) = players_data s"
  "chat_data (snd (updateGameStats t s)) = chat_data s"
  "fails (snd (updateGameStats t s)) = fails s"
  by (simp_all add: updateGameStats_def getPlayers_eq getChatHistory_eq kv_set_stats_def
      access_def Let_def split: bool.splits)

lemma reliable_fails: "reliable s \<Longrightarrow> \<not> fails s n"
  by (simp add: reliable_def)

lemma fst_getPlayers:
  "\<not> fails s (length (accesses s)) \<Longrightarrow> fst (getPlayers s) = new_Map (persisted_players s)"
  by (cases "players_data s") (simp_all add: getPlayers_eq persisted_players_def new_Map_Nil)

lemma snd_getPlayers: "snd (getPlayers s) = s\<lparr>accesses := accesses s @ [KvGet KV_PLAYERS_KEY]\<rparr>"
  by (simp add: getPlayers_eq)

lemma logout_handler_valid:
  "logout_handler (Some (UserWithPuter (GetUserReturns userInfo))) t s =
     (LoggedOut (fst (Map_delete (uuid userInfo) (fst (getPlayers s)))) (uuid userInfo)
        (Map_size (snd (Map_delete (uuid userInfo) (fst (getPlayers s))))),
      snd (updateGameStats t
        (savePlayers (snd (Map_delete (uuid userInfo) (fst (getPlayers s))))
           (snd (getPlayers s)))))"
  by (simp add: logout_handler_def Let_def split_beta)

section \<open>The capped history\<close>

lemma fst_getChatHistory:
  "\<not> fails s (length (accesses s)) \<Longrightarrow> fst (getChatHistory s) = persisted_chat s"
  by (cases "chat_data s") (simp_all add: getChatHistory_eq persisted_chat_def)

lemma snd_getChatHistory: "snd (getChatHistory s) = s\<lparr>accesses := accesses s @ [KvGet KV_CHAT_KEY]\<rparr>"
  by (simp add: getChatHistory_eq)

lemma length_push_capped:
  "length (push_capped h m) \<le> max MAX_CHAT_HISTORY (length h)"
  by (simp add: push_capped_def Let_def)

lemma push_capped_drop:
  "push_capped h m = drop (if length h \<ge> MAX_CHAT_HISTORY then 1 else 0) (h @ [m])"
  by (cases h) (simp_all add: push_capped_def Let_def drop_Suc)

lemma cap_arith:
  fixes M L n :: nat
  shows "(if M \<le> L + n - min n (L + n - M) then 1 else 0) + min n (L + n - M) =
         min (Suc n) (L + Suc n - M)"
proof (cases "M \<le> L + n - min n (L + n - M)")
  case True
  then have "1 + min n (L + n - M) = min (Suc n) (L + Suc n - M)" by arith
  with True show ?thesis by (simp only: if_True)
next
  case False
  then have "0 + min n (L + n - M) = min (Suc n) (L + Suc n - M)" by arith
  with False show ?thesis by (simp only: if_False)
qed

lemma push_capped_after_drop:
  assumes "D \<le> length xs"
  shows "push_capped (drop D xs) m =
           drop ((if MAX_CHAT_HISTORY \<le> length xs - D then 1 else 0) + D) (xs @ [m])"
proof -
  have "push_capped (drop D xs) m =
          drop (if MAX_CHAT_HISTORY \<le> length (drop D xs) then 1 else 0) (drop D xs @ [m])"
    by (rule push_capped_drop)
  also have "drop D xs @ [m] = drop D (xs @ [m])"
    using assms by simp
  finally show ?thesis
    by (simp only: drop_drop length_drop)
qed

lemma foldl_push_capped:
  "foldl push_capped h ms =
     drop (min (length ms) (length h + length ms - MAX_CHAT_HISTORY)) (h @ ms)"
proof (induction ms rule: rev_induct)
  case Nil
  then show ?case by simp
next
  case (snoc m ms)
  define D where "D = min (length ms) (length h + length ms - MAX_CHAT_HISTORY)"
  have le: "D \<le> length (h @ ms)"
    by (simp add: D_def)
  have "foldl push_capped h (ms @ [m]) = push_capped (drop D (h @ ms)) m"
    using snoc.IH by (simp add: D_def)
  also have "\<dots> = drop ((if MAX_CHAT_HISTORY \<le> length (h @ ms) - D then 1 else 0) + D)
                     ((h @ ms) @ [m])"
    by (rule push_capped_after_drop [OF le])
  also have "(if MAX_CHAT_HISTORY \<le> length (h @ ms) - D then 1 else 0) + D =
             min (length (ms @ [m])) (length h + length (ms @ [m]) - MAX_CHAT_HISTORY)"
    using cap_arith [of MAX_CHAT_HISTORY "length h" "length ms"] by (simp add: D_def)
  finally show ?case
    by (simp only: append_assoc)
qed

lemma chat_handler_bound:
  assumes "length (persisted_chat s) \<le> MAX_CHAT_HISTORY"
  shows "length (persisted_chat (snd (chat_handler req s))) \<le> MAX_CHAT_HISTORY"
proof -
  have b: "length (fst (getChatHistory s)) \<le> MAX_CHAT_HISTORY"
    using assms by (cases "chat_data s") (simp_all add: getChatHistory_eq persisted_chat_def)
  have "length (push_capped (fst (getChatHistory s)) m) \<le> MAX_CHAT_HISTORY" for m
    using length_push_capped [of "fst (getChatHistory s)" m] b by simp
  then have "length (persisted_chat (saveChatHistory (push_capped (fst (getChatHistory s)) m)
      (snd (getChatHistory s)))) \<le> MAX_CHAT_HISTORY" for m
    using assms by (simp add: saveChatHistory_eq snd_getChatHistory persisted_chat_def)
  then show ?thesis using assms
    by (simp add: chat_handler_def Let_def split_beta
        split: option.splits user.splits get_user.splits)
qed

lemma chat_handler_reliable:
  assumes "reliable s" and "valid_chat req"
  shows "\<exists>m n. fst (chat_handler req s) = ChatSent m n \<and>
           persisted_chat (snd (chat_handler req s)) = push_capped (persisted_chat s) m \<and>
           reliable (snd (chat_handler req s))"
proof -
  from assms(2) obtain userInfo raw where
    v: "chat_user req = Some (UserWithPuter (GetUserReturns userInfo))"
       "chat_body req = Some (JStr raw)" "trim raw \<noteq> []"
    by (auto simp: valid_chat_def split: option.splits user.splits get_user.splits json.splits)
  have f: "\<not> fails s n" for n using assms(1) by (rule reliable_fails)
  show ?thesis
    using assms(1)
    by (simp add: chat_handler_valid [OF v] fst_getChatHistory f saveChatHistory_eq
        snd_getChatHistory persisted_chat_def reliable_def)
qed

lemma run_chat_reliable:
  assumes "reliable s" and "\<forall>req \<in> set reqs. valid_chat req"
  shows "length (sent_messages (fst (run_chat reqs s))) = length reqs \<and>
         persisted_chat (snd (run_chat reqs s)) =
           foldl push_capped (persisted_chat s) (sent_messages (fst (run_chat reqs s))) \<and>
         reliable (snd (run_chat reqs s))"
  using assms
proof (induction reqs arbitrary: s)
  case Nil
  then show ?case by simp
next
  case (Cons req reqs)
  from Cons.prems obtain m n where
    h: "fst (chat_handler req s) = ChatSent m n"
       "persisted_chat (snd (chat_handler req s)) = push_capped (persisted_chat s) m"
       "reliable (snd (chat_handler req s))"
    using chat_handler_reliable [of s req] by auto
  from Cons.prems have "\<forall>r \<in> set reqs. valid_chat r" by simp
  from Cons.IH [OF h(3) this] h(1,2) show ?case
    by (simp add: split_beta)
qed

section \<open>What trimming removes\<close>

lemma rev_dropWhile_takeWhile:
  "rev (dropWhile P (rev xs)) @ rev (takeWhile P (rev xs)) = xs"
proof -
  have "rev (dropWhile P (rev xs)) @ rev (takeWhile P (rev xs)) =
        rev (takeWhile P (rev xs) @ dropWhile P (rev xs))"
    by (simp only: rev_append)
  also have "\<dots> = rev (rev xs)"
    by (simp only: takeWhile_dropWhile_id)
  finally show ?thesis by simp
qed

lemma trim_decomp:
  "raw = takeWhile is_whitespace raw @ trim raw @
         rev (takeWhile is_whitespace (rev (dropWhile is_whitespace raw)))"
proof -
  have "trim raw @ rev (takeWhile is_whitespace (rev (dropWhile is_whitespace raw))) =
        dropWhile is_whitespace raw"
    unfolding trim_def by (rule rev_dropWhile_takeWhile)
  then have "takeWhile is_whitespace raw @ trim raw @
         rev (takeWhile is_whitespace (rev (dropWhile is_whitespace raw))) =
         takeWhile is_whitespace raw @ dropWhile is_whitespace raw"
    by (simp only:)
  then show ?thesis by (simp only: takeWhile_dropWhile_id)
qed

lemma trim_Nil_iff: "trim raw = [] \<longleftrightarrow> (\<forall>c \<in> set raw. is_whitespace c)"
proof -
  define d where "d = dropWhile is_whitespace raw"
  have "trim raw = [] \<longleftrightarrow> (\<forall>c \<in> set d. is_whitespace c)"
    by (simp add: trim_def d_def dropWhile_eq_Nil_conv)
  also have "\<dots> \<longleftrightarrow> d = []"
  proof
    assume a: "\<forall>c \<in> set d. is_whitespace c"
    show "d = []"
    proof (rule ccontr)
      assume n: "d \<noteq> []"
      then have "\<not> is_whitespace (hd d)" unfolding d_def by (rule hd_dropWhile)
      moreover from n have "hd d \<in> set d" by simp
      ultimately show False using a by blast
    qed
  next
    assume "d = []" then show "\<forall>c \<in> set d. is_whitespace c" by simp
  qed
  also have "\<dots> \<longleftrightarrow> (\<forall>c \<in> set raw. is_whitespace c)"
    by (simp add: d_def dropWhile_eq_Nil_conv)
  finally show ?thesis .
qed

lemma trim_ends:
  assumes "trim raw \<noteq> []"
  shows "\<not> is_whitespace (hd (trim raw))" and "\<not> is_whitespace (last (trim raw))"
proof -
  define d where "d = dropWhile is_whitespace raw"
  define e where "e = dropWhile is_whitespace (rev d)"
  have t: "trim raw = rev e" by (simp add: trim_def d_def e_def)
  with assms have e: "e \<noteq> []" by simp
  then have "\<not> is_whitespace (hd e)" unfolding e_def by (rule hd_dropWhile)
  then show "\<not> is_whitespace (last (trim raw))" using e by (simp add: t last_rev)
  have dd: "d = trim raw @ rev (takeWhile is_whitespace (rev d))"
    using rev_dropWhile_takeWhile [of is_whitespace d] by (simp add: t e_def)
  with assms have "d \<noteq> []" by auto
  then have "\<not> is_whitespace (hd d)" unfolding d_def by (rule hd_dropWhile)
  moreover have "hd d = hd (trim raw)" using assms by (subst dd) simp
  ultimately show "\<not> is_whitespace (hd (trim raw))" by simp
qed

lemma trim_whitespace_around:
  "\<exists>pre suf. raw = pre @ trim raw @ suf \<and>
     (\<forall>c \<in> set pre. is_whitespace c) \<and> (\<forall>c \<in> set suf. is_whitespace c)"
proof (intro exI conjI)
  show "raw = takeWhile is_whitespace raw @ trim raw @
         rev (takeWhile is_whitespace (rev (dropWhile is_whitespace raw)))"
    by (rule trim_decomp)
  show "\<forall>c \<in> set (takeWhile is_whitespace raw). is_whitespace c"
    by (auto dest: set_takeWhileD)
  show "\<forall>c \<in> set (rev (takeWhile is_whitespace (rev (dropWhile is_whitespace raw)))).
          is_whitespace c"
    by (auto dest: set_takeWhileD)
qed

section \<open>Reads of an unwritten or failing store\<close>

text \<open>
  C10. When the players key or the chat key has never been written and the read does not
  throw, \<open>getPlayers\<close> gives the empty map and \<open>getChatHistory\<close> the empty sequence;
  \<open>GET /api/players\<close> answers with no players and count 0, \<open>GET /api/chat\<close> with no
  messages and \<open>totalMessages\<close> 0, each with status 200.
\<close>

theorem fresh_store_reads_empty:
  "(players_data s = None \<and> \<not> fails s (length (accesses s)) \<longrightarrow>
      fst (getPlayers s) = [] \<and>
      fst (get_players_handler now s) = PlayersList [] 0 now \<and>
      status (fst (get_players_handler now s)) = 200) \<and>
   (chat_data s = None \<and> \<not> fails s (length (accesses s)) \<longrightarrow>
      fst (getChatHistory s) = [] \<and>
      fst (get_chat_handler now s) = ChatMessages [] 0 now \<and>
      status (fst (get_chat_handler now s)) = 200)"
  by (simp add: getPlayers_def getChatHistory_def get_players_handler_def get_chat_handler_def
      kv_get_players_def kv_get_chat_def access_def new_Map_Nil Map_values_def slice_last_def
      status_def)

theorem fresh_store_reads_empty_witness:
  "fst (getPlayers fresh_kv) = [] \<and>
   fst (get_players_handler 7 fresh_kv) = PlayersList [] 0 7 \<and>
   fst (getChatHistory fresh_kv) = [] \<and>
   fst (get_chat_handler 7 fresh_kv) = ChatMessages [] 0 7"
  using fresh_store_reads_empty [of fresh_kv 7] by (simp add: fresh_kv_def)

text \<open>
  C8. When the fetch of the players key throws, \<open>getPlayers\<close> gives the empty map and
  \<open>GET /api/players\<close> answers with status 200, no players and count 0: the failure
  does not reach the caller.
\<close>

theorem failed_fetch_lists_nobody:
  "fails s (length (accesses s)) \<Longrightarrow>
     fst (getPlayers s) = [] \<and>
     fst (get_players_handler now s) = PlayersList [] 0 now \<and>
     status (fst (get_players_handler now s)) = 200"
  by (simp add: getPlayers_eq get_players_handler_def Map_values_def status_def)

theorem failed_fetch_lists_nobody_witness:
  "fails broken_kv (length (accesses broken_kv)) \<and>
   fst (getPlayers broken_kv) = [] \<and>
   fst (get_players_handler 7 broken_kv) = PlayersList [] 0 7 \<and>
   status (fst (get_players_handler 7 broken_kv)) = 200"
proof -
  have h: "fails broken_kv (length (accesses broken_kv))"
    by (simp add: broken_kv_def)
  show ?thesis using h failed_fetch_lists_nobody [OF h, of 7] by blast
qed

section \<open>Authentication comes first\<close>

text \<open>
  C6. A request whose \<open>user\<close> is absent, or has no \<open>puter\<close> object, gets 401 from the
  position, chat and logout handlers whatever its body is (unparsable and invalid bodies
  included), and the store comes back as it was, its record of accesses with it: no
  \<open>get\<close> and no \<open>set\<close> was made.
\<close>

theorem unauthenticated_rejected_before_store:
  assumes "usr = None \<or> usr = Some UserWithoutPuter"
  shows "position_handler (preq\<lparr>pos_user := usr\<rparr>) s =
           (HttpError 401 ''Authentication required'', s) \<and>
         chat_handler (creq\<lparr>chat_user := usr\<rparr>) s =
           (HttpError 401 ''Authentication required'', s) \<and>
         logout_handler usr t s = (HttpError 401 ''Authentication required'', s)"
  using assms by (auto simp: position_handler_def chat_handler_def logout_handler_def)

theorem unauthenticated_rejected_before_store_witness:
  "position_handler (pos_far\<lparr>pos_user := None\<rparr>) fresh_kv =
     (HttpError 401 ''Authentication required'', fresh_kv) \<and>
   chat_handler (chat_hi\<lparr>chat_user := None\<rparr>) fresh_kv =
     (HttpError 401 ''Authentication required'', fresh_kv) \<and>
   logout_handler None 7 fresh_kv = (HttpError 401 ''Authentication required'', fresh_kv)"
  using unauthenticated_rejected_before_store [of None pos_far fresh_kv chat_hi 7] by simp

section \<open>Positions\<close>

text \<open>
  C3, as claimed, fails: the handler rounds the coordinates and does not clamp them. An
  authenticated update with \<open>x = 1000\<close>, \<open>y = -3.5\<close> stores and returns \<open>(1000, -3)\<close>,
  outside \<open>[0, GRID_SIZE]\<close> on both axes.
\<close>

theorem position_not_clamped:
  "fst (position_handler pos_far fresh_kv) = PositionUpdated ''u-alice'' 1000 (- 3) 1 \<and>
   players_data (snd (position_handler pos_far fresh_kv)) =
     Some [(''u-alice'',
            \<lparr>p_id = ''u-alice'', p_username = ''alice'', p_emoji = JStr [0x263A],
             p_x = 1000, p_y = - 3, p_lastUpdate = 1700000000000\<rparr>)] \<and>
   \<not> (1000 \<le> GRID_SIZE) \<and> \<not> (0 \<le> (- 3 :: int))"
  by (simp add: position_handler_def pos_far_def fresh_kv_def alice_def getPlayers_eq
      savePlayers_eq Math_round_def Map_size_def GRID_SIZE_def)

text \<open>
  C3, amended. For every authenticated update with numeric \<open>x\<close>, \<open>y\<close> and a truthy
  avatar, the position returned is \<open>(Math.round(x), Math.round(y))\<close>, integers within
  one half of \<open>x\<close> and \<open>y\<close>; when the write does not throw, the entry stored under the
  caller's identity holds the same two integers. There is no clamping.
\<close>

theorem position_rounded:
  assumes "pos_user req = Some (UserWithPuter (GetUserReturns userInfo))"
    and "pos_body req = Some (JNum x, JNum y, emoji)" and "truthy emoji"
  shows "(\<exists>n. fst (position_handler req s) =
              PositionUpdated (uuid userInfo) (Math_round x) (Math_round y) n) \<and>
         \<bar>real_of_int (Math_round x) - x\<bar> \<le> 1 / 2 \<and>
         \<bar>real_of_int (Math_round y) - y\<bar> \<le> 1 / 2 \<and>
         (\<not> fails s (Suc (length (accesses s))) \<longrightarrow>
            (\<exists>ps p. players_data (snd (position_handler req s)) = Some ps \<and>
               map_of ps (uuid userInfo) = Some p \<and>
               p_x p = Math_round x \<and> p_y p = Math_round y))"
proof -
  have "\<bar>real_of_int (Math_round r) - r\<bar> \<le> 1 / 2" for r
    unfolding Math_round_def by linarith
  then show ?thesis
    by (simp add: position_handler_valid [OF assms] getPlayers_eq savePlayers_eq
        map_of_Map_set)
qed

theorem position_rounded_witness:
  "(\<exists>n. fst (position_handler pos_far fresh_kv) =
          PositionUpdated (uuid alice) (Math_round 1000) (Math_round (- 7 / 2)) n) \<and>
   (\<exists>ps p. players_data (snd (position_handler pos_far fresh_kv)) = Some ps \<and>
      map_of ps (uuid alice) = Some p \<and>
      p_x p = Math_round 1000 \<and> p_y p = Math_round (- 7 / 2))"
  using position_rounded [of pos_far alice 1000 "- 7 / 2" "JStr [0x263A]" fresh_kv]
  by (simp add: pos_far_def fresh_kv_def)

section \<open>Failing writes\<close>

text \<open>
  C4, as claimed, fails: \<open>savePlayers\<close> and \<open>saveChatHistory\<close> catch the exception of a
  failing \<open>set\<close>. On a store whose write (its second access) throws, a valid position
  update and a valid chat message are both answered with status 200, and nothing is
  stored.
\<close>

theorem failed_write_reported_as_success:
  "fails write_failing_kv 1 \<and>
   fst (position_handler pos_far write_failing_kv) =
     PositionUpdated ''u-alice'' 1000 (- 3) 1 \<and>
   status (fst (position_handler pos_far write_failing_kv)) = 200 \<and>
   players_data (snd (position_handler pos_far write_failing_kv)) = None \<and>
   status (fst (chat_handler chat_hi write_failing_kv)) = 200 \<and>
   chat_data (snd (chat_handler chat_hi write_failing_kv)) = None"
proof -
  have "trim [0x20, 0x68, 0x69, 0x20] = [0x68, 0x69 :: 16 word]"
    by (simp add: trim_def is_whitespace_def)
  then show ?thesis
    by (simp add: position_handler_def chat_handler_def pos_far_def chat_hi_def
        write_failing_kv_def alice_def getPlayers_eq savePlayers_eq getChatHistory_eq
        saveChatHistory_eq Math_round_def Map_size_def status_def Let_def)
qed

text \<open>
  C4, amended. For a position update or a chat message that passes authentication and
  validation, when the store write (the access after the read) throws, the handler
  still answers with its success response, status 200, and the persisted collection is
  left as it was.
\<close>

theorem failed_write_swallowed:
  assumes "fails s (Suc (length (accesses s)))"
  shows "(pos_user preq = Some (UserWithPuter (GetUserReturns userInfo)) \<and>
          pos_body preq = Some (JNum x, JNum y, emoji) \<and> truthy emoji \<longrightarrow>
            status (fst (position_handler preq s)) = 200 \<and>
            players_data (snd (position_handler preq s)) = players_data s) \<and>
         (chat_user creq = Some (UserWithPuter (GetUserReturns userInfo)) \<and>
          chat_body creq = Some (JStr raw) \<and> trim raw \<noteq> [] \<longrightarrow>
            status (fst (chat_handler creq s)) = 200 \<and>
            chat_data (snd (chat_handler creq s)) = chat_data s)"
  using assms
  by (simp add: position_handler_valid chat_handler_valid getPlayers_eq savePlayers_eq
      getChatHistory_eq saveChatHistory_eq status_def)

theorem failed_write_swallowed_witness:
  "status (fst (position_handler pos_far write_failing_kv)) = 200 \<and>
   players_data (snd (position_handler pos_far write_failing_kv)) =
     players_data write_failing_kv \<and>
   status (fst (chat_handler chat_hi write_failing_kv)) = 200 \<and>
   chat_data (snd (chat_handler chat_hi write_failing_kv)) = chat_data write_failing_kv"
proof -
  have t: "trim [0x20, 0x68, 0x69, 0x20] = [0x68, 0x69 :: 16 word]"
    by (simp add: trim_def is_whitespace_def)
  have f: "fails write_failing_kv (Suc (length (accesses write_failing_kv)))"
    by (simp add: write_failing_kv_def)
  show ?thesis
    using failed_write_swallowed [OF f, of pos_far alice 1000 "- 7 / 2" "JStr [0x263A]"
        chat_hi "[0x20, 0x68, 0x69, 0x20]"] t
    by (simp add: pos_far_def chat_hi_def)
qed

section \<open>Chat messages\<close>

text \<open>
  C5. For an authenticated request whose message is a string \<open>raw\<close>: the answer is 400
  exactly when \<open>raw\<close> trimmed is empty, that is, when every code unit of \<open>raw\<close> is
  whitespace. Otherwise \<open>raw\<close> is a run of whitespace, a body that neither starts nor
  ends with whitespace, and a run of whitespace; the handler answers with the new
  message, whose text is the first 200 code units of that body, and when the write does
  not throw that message is the last one of the persisted sequence.
\<close>

theorem chat_body_trimmed_and_truncated:
  assumes "chat_user req = Some (UserWithPuter (GetUserReturns userInfo))"
    and "chat_body req = Some (JStr raw)"
  shows "(status (fst (chat_handler req s)) = 400 \<longleftrightarrow> trim raw = []) \<and>
     (status (fst (chat_handler req s)) = 400 \<longleftrightarrow> (\<forall>c \<in> set raw. is_whitespace c)) \<and>
     (trim raw \<noteq> [] \<longrightarrow>
        (\<exists>m n. fst (chat_handler req s) = ChatSent m n \<and>
           m_message m = take 200 (trim raw) \<and> length (m_message m) \<le> 200 \<and>
           (\<not> fails s (Suc (length (accesses s))) \<longrightarrow>
              (\<exists>h. chat_data (snd (chat_handler req s)) = Some (h @ [m]))))) \<and>
     (\<not> (\<forall>c \<in> set raw. is_whitespace c) \<longrightarrow>
        (\<exists>pre body suf m n. raw = pre @ body @ suf \<and>
           (\<forall>c \<in> set pre. is_whitespace c) \<and> (\<forall>c \<in> set suf. is_whitespace c) \<and>
           body \<noteq> [] \<and> \<not> is_whitespace (hd body) \<and> \<not> is_whitespace (last body) \<and>
           fst (chat_handler req s) = ChatSent m n \<and> m_message m = take 200 body \<and>
           (\<not> fails s (Suc (length (accesses s))) \<longrightarrow>
              (\<exists>h. chat_data (snd (chat_handler req s)) = Some (h @ [m])))))"
proof (cases "trim raw = []")
  case True
  with assms show ?thesis by (simp add: chat_handler_def status_def trim_Nil_iff [symmetric])
next
  case False
  have old: "\<exists>m n. fst (chat_handler req s) = ChatSent m n \<and>
           m_message m = take 200 (trim raw) \<and> length (m_message m) \<le> 200 \<and>
           (\<not> fails s (Suc (length (accesses s))) \<longrightarrow>
              (\<exists>h. chat_data (snd (chat_handler req s)) = Some (h @ [m])))"
    using push_capped_snoc
    by (simp add: chat_handler_valid [OF assms False] new_message_def
        substring0_def getChatHistory_eq saveChatHistory_eq)
  then obtain m n where mn: "fst (chat_handler req s) = ChatSent m n"
    "m_message m = take 200 (trim raw)"
    "\<not> fails s (Suc (length (accesses s))) \<longrightarrow>
       (\<exists>h. chat_data (snd (chat_handler req s)) = Some (h @ [m]))"
    by blast
  obtain pre suf where ps: "raw = pre @ trim raw @ suf"
    "\<forall>c \<in> set pre. is_whitespace c" "\<forall>c \<in> set suf. is_whitespace c"
    using trim_whitespace_around [of raw] by blast
  have new: "\<exists>pre body suf m n. raw = pre @ body @ suf \<and>
           (\<forall>c \<in> set pre. is_whitespace c) \<and> (\<forall>c \<in> set suf. is_whitespace c) \<and>
           body \<noteq> [] \<and> \<not> is_whitespace (hd body) \<and> \<not> is_whitespace (last body) \<and>
           fst (chat_handler req s) = ChatSent m n \<and> m_message m = take 200 body \<and>
           (\<not> fails s (Suc (length (accesses s))) \<longrightarrow>
              (\<exists>h. chat_data (snd (chat_handler req s)) = Some (h @ [m])))"
    using ps mn False trim_ends [OF False] by blast
  have st: "status (fst (chat_handler req s)) \<noteq> 400"
    using mn(1) by (simp add: status_def)
  from False have nw: "\<not> (\<forall>c \<in> set raw. is_whitespace c)"
    by (simp add: trim_Nil_iff)
  show ?thesis using False old new st nw by blast
qed

theorem chat_body_trimmed_and_truncated_witness:
  "status (fst (chat_handler chat_blank fresh_kv)) = 400 \<and>
   (\<exists>m n. fst (chat_handler chat_hi fresh_kv) = ChatSent m n \<and>
      m_message m = [0x68, 0x69] \<and>
      (\<exists>h. chat_data (snd (chat_handler chat_hi fresh_kv)) = Some (h @ [m]))) \<and>
   (\<exists>m n. fst (chat_handler chat_long fresh_kv) = ChatSent m n \<and>
      m_message m = replicate 200 0x78 \<and>
      (\<exists>h. chat_data (snd (chat_handler chat_long fresh_kv)) = Some (h @ [m])))"
proof -
  have blank: "trim [0x20, 0x09] = []"
    by (simp add: trim_def is_whitespace_def)
  have hi: "trim [0x20, 0x68, 0x69, 0x20] = [0x68, 0x69 :: 16 word]"
    by (simp add: trim_def is_whitespace_def)
  have "dropWhile is_whitespace (replicate n 0x78) = replicate n 0x78" for n
    by (cases n) (simp_all add: is_whitespace_def)
  then have long: "trim (replicate 500 0x78) = replicate 500 0x78"
    by (simp add: trim_def)
  have u: "chat_user chat_blank = Some (UserWithPuter (GetUserReturns alice))"
    "chat_user chat_long = Some (UserWithPuter (GetUserReturns alice))"
    "chat_user chat_hi = Some (UserWithPuter (GetUserReturns alice))"
    by (simp_all add: chat_blank_def chat_long_def chat_hi_def)
  have b: "chat_body chat_blank = Some (JStr [0x20, 0x09])"
    "chat_body chat_long = Some (JStr (replicate 500 0x78))"
    "chat_body chat_hi = Some (JStr [0x20, 0x68, 0x69, 0x20])"
    by (simp_all add: chat_blank_def chat_long_def chat_hi_def)
  have f: "\<not> fails fresh_kv (Suc (length (accesses fresh_kv)))"
    by (simp add: fresh_kv_def)
  have "status (fst (chat_handler chat_blank fresh_kv)) = 400"
    using chat_body_trimmed_and_truncated [OF u(1) b(1), of fresh_kv] blank by simp
  moreover have "\<exists>m n. fst (chat_handler chat_hi fresh_kv) = ChatSent m n \<and>
      m_message m = [0x68, 0x69] \<and>
      (\<exists>h. chat_data (snd (chat_handler chat_hi fresh_kv)) = Some (h @ [m]))"
    using chat_body_trimmed_and_truncated [OF u(3) b(3), of fresh_kv] hi f
    by simp blast
  moreover have "\<exists>m n. fst (chat_handler chat_long fresh_kv) = ChatSent m n \<and>
      m_message m = replicate 200 0x78 \<and>
      (\<exists>h. chat_data (snd (chat_handler chat_long fresh_kv)) = Some (h @ [m]))"
    using chat_body_trimmed_and_truncated [OF u(2) b(2), of fresh_kv] long f
    by simp blast
  ultimately show ?thesis by simp
qed

text \<open>
  C9. The id of a message is \<open>Date.now() + Math.random()\<close> and nothing else: two
  messages built in the same millisecond with the same random draw get the same id.
  Alice's and Bob's messages below are sent one after the other, both are persisted,
  and both carry the id 1700000000000.5.
\<close>

theorem same_instant_same_draw_same_id:
  "fst (chat_handler chat_hi fresh_kv) =
     ChatSent \<lparr>m_id = 3400000000001 / 2, m_username = ''alice'', m_message = [0x68, 0x69],
               m_timestamp = ''2023-11-14T22:13:20.000Z'', m_userId = ''u-alice''\<rparr> 1 \<and>
   fst (chat_handler chat_yo (snd (chat_handler chat_hi fresh_kv))) =
     ChatSent \<lparr>m_id = 3400000000001 / 2, m_username = ''bob'', m_message = [0x79, 0x6F],
               m_timestamp = ''2023-11-14T22:13:20.000Z'', m_userId = ''u-bob''\<rparr> 2 \<and>
   map_option (map m_id)
     (chat_data (snd (chat_handler chat_yo (snd (chat_handler chat_hi fresh_kv))))) =
     Some [3400000000001 / 2, 3400000000001 / 2]"
proof -
  have "trim [0x20, 0x68, 0x69, 0x20] = [0x68, 0x69 :: 16 word]"
    and "trim [0x79, 0x6F] = [0x79, 0x6F :: 16 word]"
    by (simp_all add: trim_def is_whitespace_def)
  then show ?thesis
    by (simp add: chat_handler_def chat_hi_def chat_yo_def fresh_kv_def alice_def bob_def
        getChatHistory_eq saveChatHistory_eq new_message_def substring0_def
        push_capped_def MAX_CHAT_HISTORY_def Let_def)
qed

theorem same_instant_same_draw_same_id_witness:
  "\<exists>mA nA mB nB.
     fst (chat_handler chat_hi fresh_kv) = ChatSent mA nA \<and>
     fst (chat_handler chat_yo (snd (chat_handler chat_hi fresh_kv))) = ChatSent mB nB \<and>
     m_userId mA \<noteq> m_userId mB \<and> m_message mA \<noteq> m_message mB \<and> m_id mA = m_id mB"
  using same_instant_same_draw_same_id by simp

section \<open>Logout\<close>

text \<open>
  C7. On a store that does not fail, the logout of an authenticated caller answers
  \<open>playerRemoved = true\<close> exactly when the caller's identity was a key of the persisted
  players collection, and a second logout right after it answers
  \<open>playerRemoved = false\<close>; both answers are success responses, not errors.
\<close>

theorem logout_twice:
  assumes "reliable s" and "usr = Some (UserWithPuter (GetUserReturns userInfo))"
  shows "playerRemoved (fst (logout_handler usr t1 s)) =
           Some (uuid userInfo \<in> fst ` set (persisted_players s)) \<and>
         playerRemoved (fst (logout_handler usr t2 (snd (logout_handler usr t1 s)))) =
           Some False"
proof -
  have f: "\<not> fails s n" for n using assms(1) by (rule reliable_fails)
  have m: "fst ` set (fst (getPlayers s)) = fst ` set (persisted_players s)"
    by (simp add: fst_getPlayers f keys_new_Map)
  let ?s1 = "snd (logout_handler usr t1 s)"
  let ?kept = "filter (\<lambda>e. fst e \<noteq> uuid userInfo) (fst (getPlayers s))"
  have p1: "players_data ?s1 = Some ?kept"
    by (simp add: assms(2) logout_handler_valid updateGameStats_keeps savePlayers_eq
        snd_getPlayers f Map_delete_def)
  have f1: "fails ?s1 = fails s"
    by (simp add: assms(2) logout_handler_valid updateGameStats_keeps savePlayers_eq
        snd_getPlayers)
  have "fst ` set (fst (getPlayers ?s1)) = fst ` set ?kept"
    by (simp add: fst_getPlayers [of ?s1] persisted_players_def p1 f1 f keys_new_Map)
  then have "uuid userInfo \<notin> fst ` set (fst (getPlayers ?s1))" by auto
  then show ?thesis using m
    by (simp add: assms(2) logout_handler_valid playerRemoved_def Map_delete_def Map_has_def)
qed


theorem logout_twice_witness:
  "playerRemoved (fst (logout_handler (Some (UserWithPuter (GetUserReturns alice))) 7 busy_kv)) =
     Some True \<and>
   playerRemoved (fst (logout_handler (Some (UserWithPuter (GetUserReturns alice))) 8
     (snd (logout_handler (Some (UserWithPuter (GetUserReturns alice))) 7 busy_kv)))) =
     Some False"
proof -
  have r: "reliable busy_kv"
    by (simp add: reliable_def busy_kv_def)
  have "uuid alice \<in> fst ` set (persisted_players busy_kv)"
    by (simp add: persisted_players_def busy_kv_def three_players_def alice_def)
  then show ?thesis
    using logout_twice [OF r refl, of alice 7 8] by simp
qed

section \<open>Cleanup\<close>

text \<open>
  C2. On a map (one entry per key) the cleanup loop, for every \<open>now\<close> and timeout,
  keeps exactly the entries with \<open>now - lastUpdate \<le> timeout\<close>, unchanged and in
  order, and counts the others: an entry with \<open>now - lastUpdate = timeout\<close> stays,
  and the count is the number of entries removed. \<open>POST /api/cleanup\<close> runs it with
  \<open>PLAYER_TIMEOUT\<close> on the fetched players; on a store that does not fail it reports
  that count and persists the entries kept.
\<close>

theorem sweep_exact:
  "(distinct (map fst players) \<longrightarrow>
      fst (sweep now timeout players) = filter (\<lambda>e. \<not> stale now timeout e) players \<and>
      snd (sweep now timeout players) = length (filter (stale now timeout) players) \<and>
      snd (sweep now timeout players) + length (fst (sweep now timeout players)) = length players \<and>
      (\<forall>e \<in> set players. now - p_lastUpdate (snd e) = timeout \<longrightarrow>
           e \<in> set (fst (sweep now timeout players)))) \<and>
   (reliable s \<longrightarrow>
      fst (cleanup_handler now t s) =
        CleanedUp (length (filter (stale now PLAYER_TIMEOUT) (new_Map (persisted_players s))))
          (length (filter (\<lambda>e. \<not> stale now PLAYER_TIMEOUT e) (new_Map (persisted_players s)))) now \<and>
      players_data (snd (cleanup_handler now t s)) =
        Some (filter (\<lambda>e. \<not> stale now PLAYER_TIMEOUT e) (new_Map (persisted_players s))))"
proof (intro conjI impI)
  assume d: "distinct (map fst players)"
  show "fst (sweep now timeout players) = filter (\<lambda>e. \<not> stale now timeout e) players"
    and c: "snd (sweep now timeout players) = length (filter (stale now timeout) players)"
    by (simp_all add: sweep_eq [OF d])
  show "snd (sweep now timeout players) + length (fst (sweep now timeout players)) = length players"
    using sum_length_filter_compl [of "stale now timeout" players] by (simp add: sweep_eq [OF d])
  show "\<forall>e \<in> set players. now - p_lastUpdate (snd e) = timeout \<longrightarrow>
           e \<in> set (fst (sweep now timeout players))"
    by (simp add: sweep_eq [OF d] stale_def)
next
  assume r: "reliable s"
  have f: "\<not> fails s n" for n using r by (rule reliable_fails)
  have g: "fst (getPlayers s) = new_Map (persisted_players s)"
    by (simp add: fst_getPlayers f)
  have sw: "sweep now PLAYER_TIMEOUT (new_Map (persisted_players s)) =
     (filter (\<lambda>e. \<not> stale now PLAYER_TIMEOUT e) (new_Map (persisted_players s)),
      length (filter (stale now PLAYER_TIMEOUT) (new_Map (persisted_players s))))"
    by (rule sweep_eq [OF distinct_new_Map])
  show "fst (cleanup_handler now t s) =
        CleanedUp (length (filter (stale now PLAYER_TIMEOUT) (new_Map (persisted_players s))))
          (length (filter (\<lambda>e. \<not> stale now PLAYER_TIMEOUT e) (new_Map (persisted_players s)))) now"
    by (simp add: cleanup_handler_def split_beta Let_def g sw Map_size_def)
  show "players_data (snd (cleanup_handler now t s)) =
        Some (filter (\<lambda>e. \<not> stale now PLAYER_TIMEOUT e) (new_Map (persisted_players s)))"
    by (simp add: cleanup_handler_def split_beta Let_def g sw updateGameStats_keeps
        savePlayers_eq snd_getPlayers f)
qed

theorem sweep_exact_witness:
  "fst (sweep 100000 30000 three_players) = [(''u-alice'', alice_edge), (''u-bob'', bob_fresh)] \<and>
   snd (sweep 100000 30000 three_players) = 1 \<and>
   (''u-alice'', alice_edge) \<in> set (fst (sweep 100000 30000 three_players)) \<and>
   fst (cleanup_handler 100000 100001 busy_kv) = CleanedUp 1 2 100000 \<and>
   players_data (snd (cleanup_handler 100000 100001 busy_kv)) =
     Some [(''u-alice'', alice_edge), (''u-bob'', bob_fresh)]"
proof -
  have d: "distinct (map fst three_players)"
    by (simp add: three_players_def)
  have r: "reliable busy_kv"
    by (simp add: reliable_def busy_kv_def)
  have m: "new_Map (persisted_players busy_kv) = three_players"
    by (simp add: new_Map_distinct_id [OF d] persisted_players_def busy_kv_def)
  have st: "stale 100000 30000 (''u-carol'', carol_stale)"
    "\<not> stale 100000 30000 (''u-alice'', alice_edge)"
    "\<not> stale 100000 30000 (''u-bob'', bob_fresh)"
    by (simp_all add: stale_def carol_stale_def alice_edge_def bob_fresh_def)
  have e: "100000 - p_lastUpdate (snd (''u-alice'', alice_edge)) = 30000"
    by (simp add: alice_edge_def)
  have k: "filter (\<lambda>e. \<not> stale 100000 30000 e) three_players =
      [(''u-alice'', alice_edge), (''u-bob'', bob_fresh)]"
    "filter (stale 100000 30000) three_players = [(''u-carol'', carol_stale)]"
    using st by (simp_all add: three_players_def)
  show ?thesis
    using sweep_exact [of three_players 100000 30000 busy_kv 100001] d r e k
    by (simp add: m PLAYER_TIMEOUT_def)
qed

section \<open>The chat history stays bounded\<close>

text \<open>
  C1. Whatever the request and whatever the store does, \<open>POST /api/chat\<close> leaves at
  most \<open>MAX_CHAT_HISTORY\<close> persisted messages when there were at most that many
  before. On a store that does not fail, after \<open>MAX_CHAT_HISTORY + k\<close> valid messages
  (\<open>k > 0\<close>) sent one after the other on top of any starting sequence, every one of them
  was answered with its message, and the last \<open>MAX_CHAT_HISTORY\<close> entries of the
  fetched history (\<open>slice(-MAX_CHAT_HISTORY)\<close>, the tail that \<open>GET /api/chat\<close> takes
  with \<open>MAX_CHAT_DISPLAY\<close>) are the last \<open>MAX_CHAT_HISTORY\<close> of those messages in
  the order they were sent.
\<close>

theorem chat_history_bounded:
  "(length (persisted_chat s) \<le> MAX_CHAT_HISTORY \<longrightarrow>
      length (persisted_chat (snd (chat_handler req s))) \<le> MAX_CHAT_HISTORY) \<and>
   (reliable s \<and> (\<forall>r \<in> set reqs. valid_chat r) \<and>
    length reqs = MAX_CHAT_HISTORY + k \<and> 0 < k \<longrightarrow>
      length (sent_messages (fst (run_chat reqs s))) = MAX_CHAT_HISTORY + k \<and>
      slice_last MAX_CHAT_HISTORY (fst (getChatHistory (snd (run_chat reqs s)))) =
        drop k (sent_messages (fst (run_chat reqs s))))"
proof (intro conjI impI)
  assume "length (persisted_chat s) \<le> MAX_CHAT_HISTORY"
  then show "length (persisted_chat (snd (chat_handler req s))) \<le> MAX_CHAT_HISTORY"
    by (rule chat_handler_bound)
next
  assume a: "reliable s \<and> (\<forall>r \<in> set reqs. valid_chat r) \<and>
    length reqs = MAX_CHAT_HISTORY + k \<and> 0 < k"
  let ?ms = "sent_messages (fst (run_chat reqs s))"
  let ?s' = "snd (run_chat reqs s)"
  from a have r: "length ?ms = length reqs"
      "persisted_chat ?s' = foldl push_capped (persisted_chat s) ?ms" "reliable ?s'"
    using run_chat_reliable [of s reqs] by simp_all
  show n: "length ?ms = MAX_CHAT_HISTORY + k" using r(1) a by simp
  have "fst (getChatHistory ?s') = persisted_chat ?s'"
    using r(3) by (simp add: fst_getChatHistory reliable_fails)
  then show "slice_last MAX_CHAT_HISTORY (fst (getChatHistory ?s')) = drop k ?ms"
    using n by (simp add: r(2) foldl_push_capped slice_last_def MAX_CHAT_HISTORY_def min_def)
qed

theorem chat_history_bounded_witness:
  "length (persisted_chat (snd (chat_handler chat_hi fresh_kv))) \<le> MAX_CHAT_HISTORY \<and>
   length (sent_messages (fst (run_chat chat_burst fresh_kv))) = MAX_CHAT_HISTORY + 1 \<and>
   slice_last MAX_CHAT_HISTORY (fst (getChatHistory (snd (run_chat chat_burst fresh_kv)))) =
     drop 1 (sent_messages (fst (run_chat chat_burst fresh_kv)))"
proof -
  have t: "trim [0x20, 0x68, 0x69, 0x20] = [0x68, 0x69 :: 16 word]"
    by (simp add: trim_def is_whitespace_def)
  have b: "length (persisted_chat fresh_kv) \<le> MAX_CHAT_HISTORY"
    by (simp add: persisted_chat_def fresh_kv_def)
  have r: "reliable fresh_kv"
    by (simp add: reliable_def fresh_kv_def)
  have v: "\<forall>r \<in> set chat_burst. valid_chat r"
    using t by (simp add: chat_burst_def valid_chat_def chat_hi_def)
  have l: "length chat_burst = MAX_CHAT_HISTORY + 1"
    by (simp add: chat_burst_def MAX_CHAT_HISTORY_def)
  show ?thesis
    using chat_history_bounded [of fresh_kv chat_hi chat_burst 1] b r v l by simp
qed

end
